theory Spec2Isabelle
  imports Main "HOL-Library.Word"
begin

section \<open>The environment of \<^verbatim>\<open>deb_pkg_tools.utils\<close>\<close>

text \<open>
  The module talks to the operating system through the Python standard library only:
  \<^verbatim>\<open>os.makedirs\<close>, \<^verbatim>\<open>os.path.isdir\<close>, \<^verbatim>\<open>os.rmdir\<close>, \<^verbatim>\<open>os.path.realpath\<close>, \<^verbatim>\<open>os.path.join\<close>,
  \<^verbatim>\<open>tempfile.gettempdir\<close>, \<^verbatim>\<open>hashlib.sha1\<close> and \<^verbatim>\<open>time.sleep\<close>. None of them is code of
  the module. Each is modelled by what it does to the state the module can observe.
\<close>

subsection \<open>Errors\<close>

datatype errno =
  EEXIST | ENOENT | ENOTDIR | ENOTEMPTY | EACCES | ENOSPC | EROFS | EIO | ENAMETOOLONG

text \<open>
  The reasons for which creating a directory at a free path can fail. None of them is
  \<^verbatim>\<open>EEXIST\<close>, which the operating system reports exactly when the path is taken.
\<close>

datatype fault =
  PermissionDenied | NotADirectory | NoSpaceLeft | ReadOnlyFilesystem | InputOutputError
  | NameTooLong

fun errno_of_fault :: "fault \<Rightarrow> errno" where
  "errno_of_fault PermissionDenied = EACCES"
| "errno_of_fault NotADirectory = ENOTDIR"
| "errno_of_fault NoSpaceLeft = ENOSPC"
| "errno_of_fault ReadOnlyFilesystem = EROFS"
| "errno_of_fault InputOutputError = EIO"
| "errno_of_fault NameTooLong = ENAMETOOLONG"

text \<open>
  The exceptions that reach a caller of the module: \<^verbatim>\<open>OSError\<close> with its \<^verbatim>\<open>errno\<close>, the
  module's own \<^verbatim>\<open>ResourceLockedException\<close> with its message, and the two the standard
  library raises on a path it cannot work with: \<^verbatim>\<open>ValueError\<close> with its message and
  \<^verbatim>\<open>UnicodeEncodeError\<close>.
\<close>

datatype exn =
  OSError errno | ResourceLockedException string | ValueError string | UnicodeEncodeError

subsection \<open>The filesystem\<close>

text \<open>
  What a path holds: a directory with the names of its entries, or a file of another kind,
  one that \<^verbatim>\<open>os.path.isdir\<close> does not take for a directory (a regular file, say). Paths are
  kept flat: the module only ever touches the marker path itself. \<open>create_error\<close> tells
  for each path whether, and why, the operating system refuses to create a directory there
  while the path is free.
\<close>

datatype node = Directory "string list" | NonDirectory

record filesystem =
  nodes :: "string \<rightharpoonup> node"
  create_error :: "string \<Rightarrow> fault option"

text \<open>
  \<^verbatim>\<open>os.makedirs(name)\<close>: \<^verbatim>\<open>EEXIST\<close> when the path is taken (by anything), the fault's error
  when creation is refused, a new empty directory otherwise. The call is one step on the
  shared filesystem: the final \<^verbatim>\<open>mkdir\<close> of the operating system is atomic.
\<close>

definition os_makedirs :: "filesystem \<Rightarrow> string \<Rightarrow> exn + filesystem" where
  "os_makedirs fs name =
     (case nodes fs name of
        Some n \<Rightarrow> Inl (OSError EEXIST)
      | None \<Rightarrow>
          (case create_error fs name of
             Some f \<Rightarrow> Inl (OSError (errno_of_fault f))
           | None \<Rightarrow> Inr (fs\<lparr>nodes := (nodes fs)(name \<mapsto> Directory [])\<rparr>)))"

definition os_path_isdir :: "filesystem \<Rightarrow> string \<Rightarrow> bool" where
  "os_path_isdir fs path = (case nodes fs path of Some (Directory es) \<Rightarrow> True | _ \<Rightarrow> False)"

text \<open>\<^verbatim>\<open>os.rmdir(path)\<close> removes an empty directory and raises \<^verbatim>\<open>OSError\<close> on anything else.\<close>

definition os_rmdir :: "filesystem \<Rightarrow> string \<Rightarrow> exn + filesystem" where
  "os_rmdir fs path =
     (case nodes fs path of
        None \<Rightarrow> Inl (OSError ENOENT)
      | Some NonDirectory \<Rightarrow> Inl (OSError ENOTDIR)
      | Some (Directory es) \<Rightarrow>
          (if es = [] then Inr (fs\<lparr>nodes := (nodes fs)(path := None)\<rparr>)
           else Inl (OSError ENOTEMPTY)))"

subsection \<open>Path names and the platform\<close>

text \<open>\<^verbatim>\<open>posixpath.join(a, b)\<close> for two arguments.\<close>

definition os_path_join :: "string \<Rightarrow> string \<Rightarrow> string" where
  "os_path_join a b =
     (if b \<noteq> [] \<and> hd b = CHR ''/'' then b
      else if a = [] \<or> last a = CHR ''/'' then a @ b
      else a @ ''/'' @ b)"

text \<open>
  What the standard library gives on one machine: the digest function behind
  \<^verbatim>\<open>hashlib.sha1\<close> (bytes to bytes), the directory \<^verbatim>\<open>tempfile.gettempdir()\<close> returns, and
  \<^verbatim>\<open>os.path.realpath\<close>, which reads the filesystem and the working directory of the calling
  process. \<^verbatim>\<open>os.path.realpath\<close> either returns the canonical path or raises: it raises
  \<^verbatim>\<open>ValueError\<close> on a path with a NUL byte and \<^verbatim>\<open>OSError\<close> on a relative path when the
  working directory has been removed.
\<close>

record platform =
  hashlib_sha1 :: "8 word list \<Rightarrow> 8 word list"
  tempfile_gettempdir :: string
  os_path_realpath :: "filesystem \<Rightarrow> string \<Rightarrow> string \<Rightarrow> exn + string"

text \<open>
  A \<open>string\<close> holds the bytes of a path name as the filesystem has them. Python reads the
  bytes that are well-formed UTF-8 as the characters they encode and every other byte as a
  lone surrogate, and \<^verbatim>\<open>text.encode('utf-8')\<close> gives the bytes back when there is no
  surrogate and raises \<^verbatim>\<open>UnicodeEncodeError\<close> when there is one. \<^verbatim>\<open>hexdigest()\<close> writes every
  byte of the digest as two lower-case hexadecimal digits.
\<close>

definition bytes_of :: "string \<Rightarrow> 8 word list" where
  "bytes_of text = map (\<lambda>c. of_nat (of_char c)) text"

definition in_range :: "8 word \<Rightarrow> 8 word \<Rightarrow> 8 word \<Rightarrow> bool" where
  "in_range lo hi b = (lo \<le> b \<and> b \<le> hi)"

fun valid_utf8 :: "8 word list \<Rightarrow> bool" where
  "valid_utf8 [] = True"
| "valid_utf8 (a # bs) =
     (if a \<le> 0x7F then valid_utf8 bs
      else if in_range 0xC2 0xDF a then
        (case bs of
           b # r \<Rightarrow> in_range 0x80 0xBF b \<and> valid_utf8 r
         | _ \<Rightarrow> False)
      else if in_range 0xE0 0xEF a then
        (case bs of
           b # c # r \<Rightarrow>
             in_range (if a = 0xE0 then 0xA0 else 0x80) (if a = 0xED then 0x9F else 0xBF) b
             \<and> in_range 0x80 0xBF c \<and> valid_utf8 r
         | _ \<Rightarrow> False)
      else if in_range 0xF0 0xF4 a then
        (case bs of
           b # c # d # r \<Rightarrow>
             in_range (if a = 0xF0 then 0x90 else 0x80) (if a = 0xF4 then 0x8F else 0xBF) b
             \<and> in_range 0x80 0xBF c \<and> in_range 0x80 0xBF d \<and> valid_utf8 r
         | _ \<Rightarrow> False)
      else False)"

definition encode_utf8 :: "string \<Rightarrow> exn + 8 word list" where
  "encode_utf8 text =
     (if valid_utf8 (bytes_of text) then Inr (bytes_of text) else Inl UnicodeEncodeError)"

definition hexdigit :: "nat \<Rightarrow> char" where
  "hexdigit n = ''0123456789abcdef'' ! (n mod 16)"

definition hexdigest :: "8 word list \<Rightarrow> string" where
  "hexdigest bs = concat (map (\<lambda>b. [hexdigit (unat b div 16), hexdigit (unat b mod 16)]) bs)"

section \<open>The module\<close>

text \<open>
  \<^verbatim>\<open>sha1(text)\<close>: the SHA1 fingerprint of the text, as a string; the exception of
  \<^verbatim>\<open>text.encode\<close> when the text cannot be encoded.
\<close>

definition sha1 :: "platform \<Rightarrow> string \<Rightarrow> exn + string" where
  "sha1 P text =
     (case encode_utf8 text of
        Inl e \<Rightarrow> Inl e
      | Inr bs \<Rightarrow> Inr (hexdigest (hashlib_sha1 P bs)))"

text \<open>
  \<^verbatim>\<open>makedirs(directory)\<close>: \<open>True\<close> when the directory was created, \<open>False\<close> when
  \<^verbatim>\<open>os.makedirs\<close> raised \<^verbatim>\<open>OSError\<close> with \<^verbatim>\<open>errno.EEXIST\<close>; any other exception is raised
  again.
\<close>

definition makedirs :: "filesystem \<Rightarrow> string \<Rightarrow> exn + bool \<times> filesystem" where
  "makedirs fs directory =
     (case os_makedirs fs directory of
        Inr fs' \<Rightarrow> Inr (True, fs')
      | Inl e \<Rightarrow>
          (case e of
             OSError n \<Rightarrow> if n = EEXIST then Inr (False, fs) else Inl e
           | ResourceLockedException m \<Rightarrow> Inl e
           | ValueError m \<Rightarrow> Inl e
           | UnicodeEncodeError \<Rightarrow> Inl e))"

text \<open>The attributes \<^verbatim>\<open>__init__\<close> sets on an \<^verbatim>\<open>atomic_lock\<close>.\<close>

record atomic_lock =
  wait :: bool
  pathname :: string
  lock_directory :: string

text \<open>
  \<^verbatim>\<open>atomic_lock.__init__(self, pathname, wait)\<close>, in a process that sees the filesystem
  \<open>fs\<close> and has the working directory \<open>cwd\<close>. It has no \<^verbatim>\<open>try\<close>: an exception of
  \<^verbatim>\<open>os.path.realpath\<close> or of \<^verbatim>\<open>sha1\<close> leaves it as it is, and no handle is made.
\<close>

definition atomic_lock_init ::
    "platform \<Rightarrow> filesystem \<Rightarrow> string \<Rightarrow> string \<Rightarrow> bool \<Rightarrow> exn + atomic_lock" where
  "atomic_lock_init P fs cwd path w =
     (case os_path_realpath P fs cwd path of
        Inl e \<Rightarrow> Inl e
      | Inr real \<Rightarrow>
          (case sha1 P real of
             Inl e \<Rightarrow> Inl e
           | Inr digest \<Rightarrow>
               Inr \<lparr>wait = w,
                    pathname = real,
                    lock_directory =
                      os_path_join (tempfile_gettempdir P) (digest @ ''.lock'')\<rparr>))"

text \<open>
  The state \<^verbatim>\<open>__enter__\<close> and \<^verbatim>\<open>__exit__\<close> act on: the shared filesystem, the time spent in
  \<^verbatim>\<open>time.sleep\<close> (in milliseconds) and the number of \<^verbatim>\<open>spinner.step\<close> calls.
\<close>

record world =
  fs :: filesystem
  slept_ms :: nat
  spinner_steps :: nat

definition locked_message :: "string \<Rightarrow> string" where
  "locked_message path = ''Failed to lock '' @ path @ '' for exclusive access!''"

text \<open>
  \<^verbatim>\<open>atomic_lock.__enter__(self)\<close>. The loop has no exit but \<^verbatim>\<open>return\<close> and \<^verbatim>\<open>raise\<close>, so the
  result is an option: \<open>None\<close> is the loop that never ends. While the caller sleeps, the
  other processes change the filesystem: \<open>others 0\<close> is what they do during the first
  \<^verbatim>\<open>time.sleep(0.1)\<close>, \<open>others 1\<close> during the second, and so on.
\<close>

partial_function (option) atomic_lock_enter ::
    "(nat \<Rightarrow> filesystem \<Rightarrow> filesystem) \<Rightarrow> atomic_lock \<Rightarrow> world \<Rightarrow> ((exn + unit) \<times> world) option"
where
  "atomic_lock_enter others self w =
     (case makedirs (fs w) (lock_directory self) of
        Inl e \<Rightarrow> Some (Inl e, w)
      | Inr r \<Rightarrow>
          if fst r then Some (Inr (), w\<lparr>fs := snd r\<rparr>)
          else if wait self then
            atomic_lock_enter (\<lambda>k. others (Suc k)) self
              (w\<lparr>fs := others 0 (snd r),
                 slept_ms := slept_ms w + 100,
                 spinner_steps := Suc (spinner_steps w)\<rparr>)
          else Some (Inl (ResourceLockedException (locked_message (pathname self))),
                     w\<lparr>fs := snd r\<rparr>))"

text \<open>\<^verbatim>\<open>atomic_lock.__exit__(self)\<close>.\<close>

definition atomic_lock_exit :: "atomic_lock \<Rightarrow> world \<Rightarrow> (exn + unit) \<times> world" where
  "atomic_lock_exit self w =
     (if os_path_isdir (fs w) (lock_directory self) then
        (case os_rmdir (fs w) (lock_directory self) of
           Inl e \<Rightarrow> (Inl e, w)
         | Inr fs' \<Rightarrow> (Inr (), w\<lparr>fs := fs'\<rparr>))
      else (Inr (), w))"

text \<open>
  The \<^verbatim>\<open>with\<close> statement of the class's documentation, with an empty body:
  \<^verbatim>\<open>with atomic_lock(pathname): pass\<close>. When \<^verbatim>\<open>__enter__\<close> raises, \<^verbatim>\<open>__exit__\<close> is not called.
\<close>

definition with_atomic_lock ::
    "(nat \<Rightarrow> filesystem \<Rightarrow> filesystem) \<Rightarrow> atomic_lock \<Rightarrow> world \<Rightarrow> ((exn + unit) \<times> world) option"
where
  "with_atomic_lock others self w =
     (case atomic_lock_enter others self w of
        None \<Rightarrow> None
      | Some rw \<Rightarrow>
          (case fst rw of
             Inl e \<Rightarrow> Some (Inl e, snd rw)
           | Inr u \<Rightarrow> Some (atomic_lock_exit self (snd rw))))"

section \<open>Scenarios\<close>

text \<open>
  The filesystem the \<open>n\<close>-th attempt of a waiting \<^verbatim>\<open>__enter__\<close> finds, when every attempt
  before it found the marker path taken (such an attempt changes nothing itself).
\<close>

primrec attempt_fs :: "(nat \<Rightarrow> filesystem \<Rightarrow> filesystem) \<Rightarrow> filesystem \<Rightarrow> nat \<Rightarrow> filesystem" where
  "attempt_fs others f 0 = f"
| "attempt_fs others f (Suc n) = attempt_fs (\<lambda>k. others (Suc k)) (others 0 f) n"

text \<open>
  Several callers enter at the same time. Each \<^verbatim>\<open>os.makedirs\<close> call is one step on the
  shared filesystem, so a concurrent run is the run of the callers in the order in which
  the filesystem takes their calls: the order of the list.
\<close>

fun concurrent_enter ::
    "(nat \<Rightarrow> filesystem \<Rightarrow> filesystem) \<Rightarrow> atomic_lock list \<Rightarrow> world
      \<Rightarrow> ((exn + unit) list \<times> world) option"
where
  "concurrent_enter others [] w = Some ([], w)"
| "concurrent_enter others (h # hs) w =
     (case atomic_lock_enter others h w of
        None \<Rightarrow> None
      | Some rw \<Rightarrow>
          (case concurrent_enter others hs (snd rw) of
             None \<Rightarrow> None
           | Some rsw \<Rightarrow> Some (fst rw # fst rsw, snd rsw)))"

text \<open>
  A machine and a filesystem to run the module on. The digest is a stand-in of two bytes
  for the twenty of SHA1. The filesystem has no symbolic links, so that
  \<^verbatim>\<open>os.path.realpath\<close> of a normalised path is the path joined to the working directory;
  it raises on a NUL byte, and on a relative path when the working directory is not there.
\<close>

definition short_digest :: "8 word list \<Rightarrow> 8 word list" where
  "short_digest bs = [of_nat (length bs), of_nat (length (filter (\<lambda>b. b = 47) bs))]"

definition example_platform :: platform where
  "example_platform =
     \<lparr>hashlib_sha1 = short_digest,
      tempfile_gettempdir = ''/tmp'',
      os_path_realpath =
        (\<lambda>f cwd path.
           if CHR 0x00 \<in> set path then Inl (ValueError ''embedded null byte'')
           else if path \<noteq> [] \<and> hd path = CHR ''/'' then Inr path
           else if os_path_isdir f cwd then Inr (os_path_join cwd path)
           else Inl (OSError ENOENT))\<rparr>"

definition free_fs :: filesystem where
  "free_fs = \<lparr>nodes = Map.empty, create_error = (\<lambda>p. None)\<rparr>"

definition put :: "string \<Rightarrow> node \<Rightarrow> filesystem \<Rightarrow> filesystem" where
  "put path n f = f\<lparr>nodes := (nodes f)(path \<mapsto> n)\<rparr>"

definition remove :: "string \<Rightarrow> filesystem \<Rightarrow> filesystem" where
  "remove path f = f\<lparr>nodes := (nodes f)(path := None)\<rparr>"

definition refuse :: "string \<Rightarrow> fault \<Rightarrow> filesystem \<Rightarrow> filesystem" where
  "refuse path x f = f\<lparr>create_error := (create_error f)(path := Some x)\<rparr>"

definition start :: "filesystem \<Rightarrow> world" where
  "start f = \<lparr>fs = f, slept_ms = 0, spinner_steps = 0\<rparr>"

definition repo_lock :: "bool \<Rightarrow> atomic_lock" where
  "repo_lock w = \<lparr>wait = w, pathname = ''/data/repo'', lock_directory = ''/tmp/0a02.lock''\<rparr>"

section \<open>One attempt, and the attempts of a waiting caller\<close>

lemma errno_of_fault_not_EEXIST: "errno_of_fault x \<noteq> EEXIST"
  by (cases x) simp_all

lemma makedirs_taken: "nodes f d = Some n \<Longrightarrow> makedirs f d = Inr (False, f)"
  by (simp add: makedirs_def os_makedirs_def)

lemma makedirs_free:
  "nodes f d = None \<Longrightarrow> create_error f d = None \<Longrightarrow>
   makedirs f d = Inr (True, f\<lparr>nodes := (nodes f)(d \<mapsto> Directory [])\<rparr>)"
  by (simp add: makedirs_def os_makedirs_def)

lemma makedirs_refused:
  "nodes f d = None \<Longrightarrow> create_error f d = Some x \<Longrightarrow>
   makedirs f d = Inl (OSError (errno_of_fault x))"
  by (simp add: makedirs_def os_makedirs_def errno_of_fault_not_EEXIST)

lemma enter_taken_nowait:
  "\<not> wait self \<Longrightarrow> nodes (fs w) (lock_directory self) = Some n \<Longrightarrow>
   atomic_lock_enter others self w =
     Some (Inl (ResourceLockedException (locked_message (pathname self))), w)"
  by (subst atomic_lock_enter.simps) (simp add: makedirs_taken)

lemma enter_taken_wait:
  "wait self \<Longrightarrow> nodes (fs w) (lock_directory self) = Some n \<Longrightarrow>
   atomic_lock_enter others self w =
     atomic_lock_enter (\<lambda>k. others (Suc k)) self
       (w\<lparr>fs := others 0 (fs w), slept_ms := slept_ms w + 100,
          spinner_steps := Suc (spinner_steps w)\<rparr>)"
  by (subst atomic_lock_enter.simps) (simp add: makedirs_taken)

lemma enter_free:
  "nodes (fs w) (lock_directory self) = None \<Longrightarrow>
   create_error (fs w) (lock_directory self) = None \<Longrightarrow>
   atomic_lock_enter others self w =
     Some (Inr (), w\<lparr>fs := (fs w)\<lparr>nodes := (nodes (fs w))(lock_directory self \<mapsto> Directory [])\<rparr>\<rparr>)"
  by (subst atomic_lock_enter.simps) (simp add: makedirs_free)

lemma enter_refused:
  "nodes (fs w) (lock_directory self) = None \<Longrightarrow>
   create_error (fs w) (lock_directory self) = Some x \<Longrightarrow>
   atomic_lock_enter others self w = Some (Inl (OSError (errno_of_fault x)), w)"
  by (subst atomic_lock_enter.simps) (simp add: makedirs_refused)

lemma enter_waits:
  "wait self \<Longrightarrow>
   \<forall>k<n. nodes (attempt_fs others (fs w) k) (lock_directory self) \<noteq> None \<Longrightarrow>
   atomic_lock_enter others self w =
     atomic_lock_enter (\<lambda>k. others (n + k)) self
       (w\<lparr>fs := attempt_fs others (fs w) n, slept_ms := slept_ms w + 100 * n,
          spinner_steps := spinner_steps w + n\<rparr>)"
proof (induction n arbitrary: others w)
  case 0
  then show ?case by simp
next
  case (Suc n)
  let ?o = "\<lambda>k. others (Suc k)"
  let ?w = "w\<lparr>fs := others 0 (fs w), slept_ms := slept_ms w + 100,
               spinner_steps := Suc (spinner_steps w)\<rparr>"
  from Suc.prems(2) have "nodes (attempt_fs others (fs w) 0) (lock_directory self) \<noteq> None"
    by blast
  then obtain m where m: "nodes (fs w) (lock_directory self) = Some m"
    by auto
  have step: "atomic_lock_enter others self w = atomic_lock_enter ?o self ?w"
    using Suc.prems(1) m by (rule enter_taken_wait)
  have "\<forall>k<n. nodes (attempt_fs ?o (fs ?w) k) (lock_directory self) \<noteq> None"
  proof (intro allI impI)
    fix k assume "k < n"
    then have "Suc k < Suc n" by simp
    with Suc.prems(2) have "nodes (attempt_fs others (fs w) (Suc k)) (lock_directory self) \<noteq> None"
      by blast
    then show "nodes (attempt_fs ?o (fs ?w) k) (lock_directory self) \<noteq> None"
      by simp
  qed
  from Suc.IH [OF Suc.prems(1) this] step show ?case
    by (simp add: add.assoc)
qed

lemma enter_returns_free_attempt:
  assumes "atomic_lock_enter others self w = Some y"
  shows "wait self \<longrightarrow> (\<exists>k. nodes (attempt_fs others (fs w) k) (lock_directory self) = None)"
proof (induct rule: atomic_lock_enter.raw_induct [OF _ assms])
  case (1 enter others self w y)
  show ?case
  proof
    assume waiting: "wait self"
    show "\<exists>k. nodes (attempt_fs others (fs w) k) (lock_directory self) = None"
    proof (cases "nodes (fs w) (lock_directory self)")
      case None
      then have "nodes (attempt_fs others (fs w) 0) (lock_directory self) = None"
        by simp
      then show ?thesis by blast
    next
      case (Some m)
      let ?o = "\<lambda>k. others (Suc k)"
      let ?w = "w\<lparr>fs := others 0 (fs w), slept_ms := slept_ms w + 100,
                   spinner_steps := Suc (spinner_steps w)\<rparr>"
      from "1"(2) Some waiting have "enter ?o self ?w = Some y"
        by (simp add: makedirs_taken)
      from "1"(1) [OF this] waiting
      obtain k where "nodes (attempt_fs ?o (fs ?w) k) (lock_directory self) = None"
        by blast
      then have "nodes (attempt_fs others (fs w) (Suc k)) (lock_directory self) = None"
        by simp
      then show ?thesis by blast
    qed
  qed
qed

lemma enter_forever:
  assumes "wait self"
    and "\<forall>k. nodes (attempt_fs others (fs w) k) (lock_directory self) \<noteq> None"
  shows "atomic_lock_enter others self w = None"
proof (cases "atomic_lock_enter others self w")
  case None
  then show ?thesis .
next
  case (Some y)
  from enter_returns_free_attempt [OF Some] assms show ?thesis
    by blast
qed

text \<open>The lock of the scenarios.\<close>

lemma repo_lock_simps:
  "wait (repo_lock b) = b"
  "pathname (repo_lock b) = ''/data/repo''"
  "lock_directory (repo_lock b) = ''/tmp/0a02.lock''"
  by (simp_all add: repo_lock_def)

lemma valid_utf8_repo: "valid_utf8 (bytes_of ''/data/repo'')"
  by (simp add: bytes_of_def)

lemma repo_lock_made:
  "atomic_lock_init example_platform f cwd ''/data/repo'' b = Inr (repo_lock b)"
  using valid_utf8_repo
  by (simp add: atomic_lock_init_def example_platform_def sha1_def encode_utf8_def
        repo_lock_def os_path_join_def)
     (simp add: bytes_of_def hexdigest_def hexdigit_def short_digest_def)

text \<open>What a handle that was made tells about its making.\<close>

lemma init_made:
  assumes "atomic_lock_init P f cwd path w = Inr h"
  shows "os_path_realpath P f cwd path = Inr (pathname h)"
    and "wait h = w"
    and "encode_utf8 (pathname h) = Inr (bytes_of (pathname h))"
    and "sha1 P (pathname h) = Inr (hexdigest (hashlib_sha1 P (bytes_of (pathname h))))"
    and "lock_directory h =
           os_path_join (tempfile_gettempdir P)
             (hexdigest (hashlib_sha1 P (bytes_of (pathname h))) @ ''.lock'')"
  using assms
  by (auto simp: atomic_lock_init_def sha1_def encode_utf8_def
           split: sum.splits if_splits)

lemma init_of_realpath:
  assumes "os_path_realpath P f cwd path = Inr real"
  shows "atomic_lock_init P f cwd path w =
           (case sha1 P real of
              Inl e \<Rightarrow> Inl e
            | Inr digest \<Rightarrow>
                Inr \<lparr>wait = w, pathname = real,
                     lock_directory =
                       os_path_join (tempfile_gettempdir P) (digest @ ''.lock'')\<rparr>)"
  using assms by (simp add: atomic_lock_init_def)

section \<open>Release\<close>

text \<open>
  Claim C4. Release with no marker at the lock's path, because it was removed by someone
  else or never created, changes nothing in the world and raises nothing; and once a
  release has returned, a second release of the same handle is such a release.
\<close>

theorem exit_absent_marker_noop:
  "(nodes (fs w) (lock_directory self) = None \<longrightarrow> atomic_lock_exit self w = (Inr (), w))
   \<and> (atomic_lock_exit self w = (Inr (), w') \<longrightarrow> atomic_lock_exit self w' = (Inr (), w'))"
  by (auto simp: atomic_lock_exit_def os_path_isdir_def os_rmdir_def
           split: option.splits node.splits if_splits)

theorem exit_absent_marker_noop_witness:
  "nodes (fs (start free_fs)) (lock_directory (repo_lock True)) = None
   \<and> atomic_lock_exit (repo_lock True) (start free_fs) = (Inr (), start free_fs)"
  using exit_absent_marker_noop [of "start free_fs" "repo_lock True" "start free_fs"]
  by (simp add: start_def free_fs_def)

section \<open>Acquisition without waiting\<close>

text \<open>
  Claim C3. A handle made with \<open>wait = False\<close> that finds its marker path taken raises
  \<^verbatim>\<open>ResourceLockedException\<close> from the first attempt: the message names the canonical path
  (the handle's \<open>pathname\<close>, which is what \<^verbatim>\<open>os.path.realpath\<close> returned), and the world is
  the one it found, so nothing was slept and the holder's marker is where it was.
\<close>

theorem nonblocking_enter_contended:
  assumes "atomic_lock_init P f cwd path False = Inr self"
    and "nodes (fs w) (lock_directory self) \<noteq> None"
  shows "os_path_realpath P f cwd path = Inr (pathname self)
       \<and> atomic_lock_enter others self w =
           Some (Inl (ResourceLockedException
                   (''Failed to lock '' @ pathname self @ '' for exclusive access!'')), w)"
proof -
  from init_made(1,2) [OF assms(1)]
  have real: "os_path_realpath P f cwd path = Inr (pathname self)" and "\<not> wait self"
    by simp_all
  moreover from assms(2) obtain n where "nodes (fs w) (lock_directory self) = Some n"
    by auto
  ultimately show ?thesis
    using enter_taken_nowait [of self w n others] by (simp add: locked_message_def)
qed

theorem nonblocking_enter_contended_witness:
  "atomic_lock_init example_platform free_fs ''/'' ''/data/repo'' False = Inr (repo_lock False)
   \<and> nodes (fs (start (put ''/tmp/0a02.lock'' (Directory []) free_fs)))
        (lock_directory (repo_lock False)) = Some (Directory [])
   \<and> os_path_realpath example_platform free_fs ''/'' ''/data/repo'' = Inr ''/data/repo''
   \<and> atomic_lock_enter (\<lambda>k. remove ''/tmp/0a02.lock'') (repo_lock False)
        (start (put ''/tmp/0a02.lock'' (Directory []) free_fs)) =
       Some (Inl (ResourceLockedException ''Failed to lock /data/repo for exclusive access!''),
             start (put ''/tmp/0a02.lock'' (Directory []) free_fs))"
proof -
  let ?w = "start (put ''/tmp/0a02.lock'' (Directory []) free_fs)"
  have made: "atomic_lock_init example_platform free_fs ''/'' ''/data/repo'' False
                = Inr (repo_lock False)"
    by (rule repo_lock_made)
  have held: "nodes (fs ?w) (lock_directory (repo_lock False)) = Some (Directory [])"
    by (simp add: repo_lock_simps start_def put_def)
  then have taken: "nodes (fs ?w) (lock_directory (repo_lock False)) \<noteq> None"
    by simp
  from nonblocking_enter_contended [OF made taken, of "\<lambda>k. remove ''/tmp/0a02.lock''"]
  have "os_path_realpath example_platform free_fs ''/'' ''/data/repo'' = Inr ''/data/repo''"
    and "atomic_lock_enter (\<lambda>k. remove ''/tmp/0a02.lock'') (repo_lock False) ?w =
       Some (Inl (ResourceLockedException ''Failed to lock /data/repo for exclusive access!''), ?w)"
    by (simp_all add: repo_lock_simps)
  with made held show ?thesis
    by blast
qed

section \<open>Acquire, then release\<close>

text \<open>
  Claim C5. From any world with nothing at the marker path, \<^verbatim>\<open>with atomic_lock(...): pass\<close>
  comes back, in either mode and whatever the other processes would do during a sleep,
  and leaves nothing at the marker path; it comes back without an exception unless the
  operating system refused to create the marker.
\<close>

theorem with_lock_leaves_no_marker:
  assumes "nodes (fs w) (lock_directory self) = None"
  shows "\<exists>r w'. with_atomic_lock others self w = Some (r, w')
           \<and> nodes (fs w') (lock_directory self) = None
           \<and> (create_error (fs w) (lock_directory self) = None \<longrightarrow> r = Inr ())"
proof (cases "create_error (fs w) (lock_directory self)")
  case None
  with assms show ?thesis
    by (simp add: with_atomic_lock_def enter_free atomic_lock_exit_def os_path_isdir_def
          os_rmdir_def)
next
  case (Some x)
  with assms show ?thesis
    by (simp add: with_atomic_lock_def enter_refused)
qed

theorem with_lock_leaves_no_marker_witness:
  "nodes (fs (start free_fs)) (lock_directory (repo_lock True)) = None
   \<and> create_error (fs (start free_fs)) (lock_directory (repo_lock True)) = None
   \<and> map_option fst (with_atomic_lock (\<lambda>k. id) (repo_lock True) (start free_fs))
       = Some (Inr ())
   \<and> map_option (\<lambda>rw. nodes (fs (snd rw)) ''/tmp/0a02.lock'')
        (with_atomic_lock (\<lambda>k. id) (repo_lock True) (start free_fs)) = Some None"
proof -
  have free: "nodes (fs (start free_fs)) (lock_directory (repo_lock True)) = None"
    and allowed: "create_error (fs (start free_fs)) (lock_directory (repo_lock True)) = None"
    by (simp_all add: start_def free_fs_def)
  from with_lock_leaves_no_marker [OF free, of "\<lambda>k. id"] allowed
  obtain w' where "with_atomic_lock (\<lambda>k. id) (repo_lock True) (start free_fs) = Some (Inr (), w')"
    and "nodes (fs w') (lock_directory (repo_lock True)) = None"
    by blast
  with free allowed show ?thesis
    by (simp add: repo_lock_simps)
qed

section \<open>Errors of the operating system\<close>

text \<open>
  Claim C6. An \<^verbatim>\<open>OSError\<close> of \<^verbatim>\<open>os.makedirs\<close> other than \<^verbatim>\<open>EEXIST\<close> leaves \<^verbatim>\<open>__enter__\<close> as it
  is, at once and in the world the failing call found, whether the handle waits or not;
  \<open>makedirs\<close> answers \<open>False\<close>, the only way into the branch that waits or reports
  contention, exactly on \<^verbatim>\<open>EEXIST\<close>; and a waiting handle whose \<open>n\<close>-th retry meets such
  an error raises it then, after \<open>n\<close> sleeps, with no further attempt.
\<close>

theorem enter_propagates_os_errors:
  "(e \<noteq> EEXIST \<and> os_makedirs (fs w) (lock_directory self) = Inl (OSError e)
      \<longrightarrow> atomic_lock_enter others self w = Some (Inl (OSError e), w))
   \<and> ((\<exists>f'. makedirs (fs w) (lock_directory self) = Inr (False, f'))
        \<longleftrightarrow> os_makedirs (fs w) (lock_directory self) = Inl (OSError EEXIST))
   \<and> (wait self \<and> (\<forall>k<n. nodes (attempt_fs others (fs w) k) (lock_directory self) \<noteq> None)
        \<and> e \<noteq> EEXIST
        \<and> os_makedirs (attempt_fs others (fs w) n) (lock_directory self) = Inl (OSError e)
      \<longrightarrow> atomic_lock_enter others self w =
            Some (Inl (OSError e),
                  w\<lparr>fs := attempt_fs others (fs w) n, slept_ms := slept_ms w + 100 * n,
                    spinner_steps := spinner_steps w + n\<rparr>))"
proof (intro conjI impI)
  assume "e \<noteq> EEXIST \<and> os_makedirs (fs w) (lock_directory self) = Inl (OSError e)"
  then show "atomic_lock_enter others self w = Some (Inl (OSError e), w)"
    by (subst atomic_lock_enter.simps) (simp add: makedirs_def)
next
  show "(\<exists>f'. makedirs (fs w) (lock_directory self) = Inr (False, f'))
        \<longleftrightarrow> os_makedirs (fs w) (lock_directory self) = Inl (OSError EEXIST)"
    by (auto simp: makedirs_def os_makedirs_def errno_of_fault_not_EEXIST
             split: option.splits)
next
  assume a: "wait self \<and> (\<forall>k<n. nodes (attempt_fs others (fs w) k) (lock_directory self) \<noteq> None)
        \<and> e \<noteq> EEXIST
        \<and> os_makedirs (attempt_fs others (fs w) n) (lock_directory self) = Inl (OSError e)"
  let ?w = "w\<lparr>fs := attempt_fs others (fs w) n, slept_ms := slept_ms w + 100 * n,
                    spinner_steps := spinner_steps w + n\<rparr>"
  from a have "atomic_lock_enter others self w = atomic_lock_enter (\<lambda>k. others (n + k)) self ?w"
    using enter_waits [of self n others w] by blast
  also from a have "\<dots> = Some (Inl (OSError e), ?w)"
    by (subst atomic_lock_enter.simps) (simp add: makedirs_def)
  finally show "atomic_lock_enter others self w = Some (Inl (OSError e), ?w)" .
qed

theorem enter_propagates_os_errors_witness:
  "EACCES \<noteq> EEXIST
   \<and> os_makedirs (fs (start (refuse ''/tmp/0a02.lock'' PermissionDenied free_fs)))
        (lock_directory (repo_lock False)) = Inl (OSError EACCES)
   \<and> atomic_lock_enter (\<lambda>k. id) (repo_lock False)
        (start (refuse ''/tmp/0a02.lock'' PermissionDenied free_fs))
       = Some (Inl (OSError EACCES), start (refuse ''/tmp/0a02.lock'' PermissionDenied free_fs))
   \<and> wait (repo_lock True)
   \<and> nodes (attempt_fs (\<lambda>k f. refuse ''/tmp/0a02.lock'' InputOutputError (remove ''/tmp/0a02.lock'' f))
               (fs (start (put ''/tmp/0a02.lock'' NonDirectory free_fs))) 0)
        (lock_directory (repo_lock True)) = Some NonDirectory
   \<and> EIO \<noteq> EEXIST
   \<and> atomic_lock_enter (\<lambda>k f. refuse ''/tmp/0a02.lock'' InputOutputError (remove ''/tmp/0a02.lock'' f))
        (repo_lock True) (start (put ''/tmp/0a02.lock'' NonDirectory free_fs))
       = Some (Inl (OSError EIO),
               \<lparr>fs = refuse ''/tmp/0a02.lock'' InputOutputError free_fs,
                slept_ms = 100, spinner_steps = 1\<rparr>)"
proof -
  let ?d = "''/tmp/0a02.lock''"
  let ?denied = "start (refuse ?d PermissionDenied free_fs)"
  let ?others = "\<lambda>(k::nat) f. refuse ?d InputOutputError (remove ?d f)"
  let ?held = "start (put ?d NonDirectory free_fs)"
  have denied: "EACCES \<noteq> EEXIST
      \<and> os_makedirs (fs ?denied) (lock_directory (repo_lock False)) = Inl (OSError EACCES)"
    by (simp add: repo_lock_simps os_makedirs_def start_def refuse_def free_fs_def)
  with enter_propagates_os_errors [of EACCES ?denied "repo_lock False" "\<lambda>k. id"]
  have first: "atomic_lock_enter (\<lambda>k. id) (repo_lock False) ?denied
                 = Some (Inl (OSError EACCES), ?denied)"
    by blast
  have taken: "nodes (attempt_fs ?others (fs ?held) 0) (lock_directory (repo_lock True))
                 = Some NonDirectory"
    by (simp add: repo_lock_simps start_def put_def)
  then have before: "\<forall>k<1. nodes (attempt_fs ?others (fs ?held) k) (lock_directory (repo_lock True))
                 \<noteq> None"
    by simp
  have later: "os_makedirs (attempt_fs ?others (fs ?held) 1) (lock_directory (repo_lock True))
                 = Inl (OSError EIO)"
    by (simp add: repo_lock_simps os_makedirs_def start_def put_def remove_def refuse_def
          free_fs_def)
  have "wait (repo_lock True)" and "EIO \<noteq> EEXIST"
    by (simp_all add: repo_lock_simps)
  with before later enter_propagates_os_errors [of EIO ?held "repo_lock True" ?others 1]
  have "atomic_lock_enter ?others (repo_lock True) ?held
          = Some (Inl (OSError EIO),
                  ?held\<lparr>fs := attempt_fs ?others (fs ?held) 1, slept_ms := slept_ms ?held + 100 * 1,
                    spinner_steps := spinner_steps ?held + 1\<rparr>)"
    by blast
  then have second: "atomic_lock_enter ?others (repo_lock True) ?held
          = Some (Inl (OSError EIO),
                  \<lparr>fs = refuse ?d InputOutputError free_fs, slept_ms = 100, spinner_steps = 1\<rparr>)"
    by (simp add: start_def put_def remove_def refuse_def free_fs_def)
  from denied first taken second show ?thesis
    by (simp add: repo_lock_simps)
qed

section \<open>Callers that enter at the same time\<close>

lemma concurrent_enter_taken:
  assumes "\<forall>h\<in>set hs. \<not> wait h \<and> lock_directory h = d"
    and "nodes (fs w) d = Some n"
  shows "concurrent_enter others hs w =
           Some (map (\<lambda>h. Inl (ResourceLockedException (locked_message (pathname h)))) hs, w)"
  using assms
proof (induction hs)
  case Nil
  then show ?case by simp
next
  case (Cons h hs)
  then have "atomic_lock_enter others h w =
      Some (Inl (ResourceLockedException (locked_message (pathname h))), w)"
    using enter_taken_nowait [of h w n others] by simp
  with Cons show ?case by simp
qed

lemma concurrent_enter_refused:
  assumes "\<forall>h\<in>set hs. \<not> wait h \<and> lock_directory h = d"
    and "nodes (fs w) d = None" and "create_error (fs w) d = Some x"
  shows "concurrent_enter others hs w =
           Some (map (\<lambda>h. Inl (OSError (errno_of_fault x))) hs, w)"
  using assms
proof (induction hs)
  case Nil
  then show ?case by simp
next
  case (Cons h hs)
  then have "atomic_lock_enter others h w = Some (Inl (OSError (errno_of_fault x)), w)"
    using enter_refused [of w h x others] by simp
  with Cons show ?case by simp
qed

lemma concurrent_enter_free:
  assumes "\<forall>h\<in>set (h0 # hs). \<not> wait h \<and> lock_directory h = d"
    and "nodes (fs w) d = None" and "create_error (fs w) d = None"
  shows "concurrent_enter others (h0 # hs) w =
           Some (Inr () # map (\<lambda>h. Inl (ResourceLockedException (locked_message (pathname h)))) hs,
                 w\<lparr>fs := (fs w)\<lparr>nodes := (nodes (fs w))(d \<mapsto> Directory [])\<rparr>\<rparr>)"
proof -
  let ?w = "w\<lparr>fs := (fs w)\<lparr>nodes := (nodes (fs w))(d \<mapsto> Directory [])\<rparr>\<rparr>"
  from assms have first: "atomic_lock_enter others h0 w = Some (Inr (), ?w)"
    using enter_free [of w h0 others] by simp
  from assms(1) have "\<forall>h\<in>set hs. \<not> wait h \<and> lock_directory h = d"
    by simp
  moreover have "nodes (fs ?w) d = Some (Directory [])"
    by simp
  ultimately have "concurrent_enter others hs ?w =
      Some (map (\<lambda>h. Inl (ResourceLockedException (locked_message (pathname h)))) hs, ?w)"
    by (rule concurrent_enter_taken)
  with first show ?thesis by simp
qed

lemma nonblocking_success_iff:
  assumes "\<not> wait h"
  shows "atomic_lock_enter others h v = Some (Inr (), v')
           \<longleftrightarrow> makedirs (fs v) (lock_directory h) = Inr (True, fs v') \<and> v' = v\<lparr>fs := fs v'\<rparr>"
proof (cases "nodes (fs v) (lock_directory h)")
  case (Some n)
  with assms show ?thesis
    by (simp add: enter_taken_nowait makedirs_taken)
next
  case None
  show ?thesis
  proof (cases "create_error (fs v) (lock_directory h)")
    case (Some x)
    with None show ?thesis
      by (simp add: enter_refused makedirs_refused)
  next
    case free: None
    with None show ?thesis
      by (auto simp: enter_free makedirs_free)
  qed
qed

text \<open>
  Claim C1. Handles with the same marker path and \<open>wait = False\<close> enter at the same time,
  in whatever order the filesystem takes their \<^verbatim>\<open>os.makedirs\<close> calls. Every one of them
  gets an answer, at most one of the answers is success, and a handle succeeds exactly when
  its own \<open>makedirs\<close> call created the marker. When the marker path is free and the
  operating system lets the directory be created, the first call succeeds, every other
  caller gets \<^verbatim>\<open>ResourceLockedException\<close>, and the marker is there at the end.
\<close>

theorem concurrent_enter_exclusive:
  assumes "\<forall>h\<in>set hs. \<not> wait h \<and> lock_directory h = d"
  shows "\<exists>rs w'. concurrent_enter others hs w = Some (rs, w')
           \<and> length rs = length hs
           \<and> length (filter (\<lambda>r. r = Inr ()) rs) \<le> 1
           \<and> (hs \<noteq> [] \<and> nodes (fs w) d = None \<and> create_error (fs w) d = None \<longrightarrow>
                rs = Inr () # map (\<lambda>h. Inl (ResourceLockedException
                                              (locked_message (pathname h)))) (tl hs)
                \<and> nodes (fs w') d = Some (Directory []))
           \<and> (\<forall>h\<in>set hs. \<forall>v v'.
                atomic_lock_enter others h v = Some (Inr (), v')
                  \<longleftrightarrow> makedirs (fs v) (lock_directory h) = Inr (True, fs v')
                      \<and> v' = v\<lparr>fs := fs v'\<rparr>)"
proof -
  have one: "\<forall>h\<in>set hs. \<forall>v v'.
                atomic_lock_enter others h v = Some (Inr (), v')
                  \<longleftrightarrow> makedirs (fs v) (lock_directory h) = Inr (True, fs v')
                      \<and> v' = v\<lparr>fs := fs v'\<rparr>"
    using assms nonblocking_success_iff by blast
  have no_success: "filter (\<lambda>r. r = Inr ()) (map (\<lambda>h. Inl (g h)) xs) = []"
    for g :: "atomic_lock \<Rightarrow> exn" and xs
    by (induction xs) simp_all
  show ?thesis
  proof (cases "nodes (fs w) d")
    case (Some n)
    from concurrent_enter_taken [OF assms Some, of others] Some one show ?thesis
      by (simp add: no_success)
  next
    case None
    show ?thesis
    proof (cases "create_error (fs w) d")
      case (Some x)
      from concurrent_enter_refused [OF assms None Some, of others] Some one show ?thesis
        by (simp add: no_success)
    next
      case free: None
      show ?thesis
      proof (cases hs)
        case Nil
        with one show ?thesis by simp
      next
        case (Cons h0 hs')
        with assms have "\<forall>h\<in>set (h0 # hs'). \<not> wait h \<and> lock_directory h = d"
          by simp
        from concurrent_enter_free [OF this None free, of others] Cons one show ?thesis
          by (simp add: no_success)
      qed
    qed
  qed
qed

theorem concurrent_enter_exclusive_witness:
  "\<not> wait (repo_lock False) \<and> lock_directory (repo_lock False) = ''/tmp/0a02.lock''
   \<and> nodes (fs (start free_fs)) ''/tmp/0a02.lock'' = None
   \<and> create_error (fs (start free_fs)) ''/tmp/0a02.lock'' = None
   \<and> map_option fst
        (concurrent_enter (\<lambda>k. id) [repo_lock False, repo_lock False, repo_lock False]
           (start free_fs)) =
       Some [Inr (),
             Inl (ResourceLockedException ''Failed to lock /data/repo for exclusive access!''),
             Inl (ResourceLockedException ''Failed to lock /data/repo for exclusive access!'')]"
proof -
  let ?hs = "[repo_lock False, repo_lock False, repo_lock False]"
  have same: "\<forall>h\<in>set ?hs. \<not> wait h \<and> lock_directory h = ''/tmp/0a02.lock''"
    by (simp add: repo_lock_simps)
  have free: "nodes (fs (start free_fs)) ''/tmp/0a02.lock'' = None"
    and allowed: "create_error (fs (start free_fs)) ''/tmp/0a02.lock'' = None"
    by (simp_all add: start_def free_fs_def)
  from concurrent_enter_exclusive [OF same, of "\<lambda>k. id" "start free_fs"] free allowed
  obtain w' where "concurrent_enter (\<lambda>k. id) ?hs (start free_fs) =
      Some (Inr () # map (\<lambda>h. Inl (ResourceLockedException (locked_message (pathname h))))
                       (tl ?hs), w')"
    by auto
  then have "map_option fst (concurrent_enter (\<lambda>k. id) ?hs (start free_fs)) =
       Some [Inr (),
             Inl (ResourceLockedException ''Failed to lock /data/repo for exclusive access!''),
             Inl (ResourceLockedException ''Failed to lock /data/repo for exclusive access!'')]"
    by (simp add: repo_lock_simps locked_message_def)
  with same free allowed show ?thesis
    by (simp add: repo_lock_simps)
qed

section \<open>Acquisition that waits\<close>

lemma attempt_fs_idle: "attempt_fs (\<lambda>k. id) f n = f"
  by (induction n) simp_all

lemma first_free_attempt:
  assumes "nodes (attempt_fs others f k) d = None"
  obtains n where "nodes (attempt_fs others f n) d = None"
    and "\<forall>j<n. nodes (attempt_fs others f j) d \<noteq> None"
proof -
  let ?P = "\<lambda>n. nodes (attempt_fs others f n) d = None"
  from assms have "?P (LEAST n. ?P n)"
    by (rule LeastI)
  moreover have "\<forall>j<(LEAST n. ?P n). \<not> ?P j"
    using not_less_Least by blast
  ultimately show thesis
    using that by blast
qed

text \<open>
  Claim C8. A handle made with \<open>wait = True\<close> never comes back while the marker path
  stays taken: there is no bound on the attempts and no timeout. Whenever the marker path
  is taken at the first \<open>n\<close> attempts and free at the next, \<^verbatim>\<open>__enter__\<close> does come back, from
  that attempt, after \<open>n\<close> sleeps of 100 milliseconds and \<open>n\<close> spinner steps: normally and
  with the marker directory created when the operating system allows the creation, with
  the operating system's error when it does not. Conversely, when \<^verbatim>\<open>__enter__\<close> comes back,
  it does so at the first attempt that found the marker path free, after one sleep of 100
  milliseconds (and one spinner step) for every attempt before it; it never raises
  \<^verbatim>\<open>ResourceLockedException\<close>, and when it returns normally that attempt created the
  marker directory.
\<close>

theorem blocking_enter_waits_for_creation:
  assumes "wait self"
  shows "((\<forall>k. nodes (attempt_fs others (fs w) k) (lock_directory self) \<noteq> None)
            \<longrightarrow> atomic_lock_enter others self w = None)
       \<and> (\<forall>n. (\<forall>k<n. nodes (attempt_fs others (fs w) k) (lock_directory self) \<noteq> None)
              \<and> nodes (attempt_fs others (fs w) n) (lock_directory self) = None
              \<and> create_error (attempt_fs others (fs w) n) (lock_directory self) = None
            \<longrightarrow> atomic_lock_enter others self w =
                  Some (Inr (),
                        w\<lparr>fs := (attempt_fs others (fs w) n)
                                  \<lparr>nodes := (nodes (attempt_fs others (fs w) n))
                                              (lock_directory self \<mapsto> Directory [])\<rparr>,
                          slept_ms := slept_ms w + 100 * n,
                          spinner_steps := spinner_steps w + n\<rparr>))
       \<and> (\<forall>n x. (\<forall>k<n. nodes (attempt_fs others (fs w) k) (lock_directory self) \<noteq> None)
              \<and> nodes (attempt_fs others (fs w) n) (lock_directory self) = None
              \<and> create_error (attempt_fs others (fs w) n) (lock_directory self) = Some x
            \<longrightarrow> atomic_lock_enter others self w =
                  Some (Inl (OSError (errno_of_fault x)),
                        w\<lparr>fs := attempt_fs others (fs w) n,
                          slept_ms := slept_ms w + 100 * n,
                          spinner_steps := spinner_steps w + n\<rparr>))
       \<and> (\<forall>r w'. atomic_lock_enter others self w = Some (r, w') \<longrightarrow>
            (\<exists>n. (\<forall>k<n. nodes (attempt_fs others (fs w) k) (lock_directory self) \<noteq> None)
               \<and> nodes (attempt_fs others (fs w) n) (lock_directory self) = None
               \<and> slept_ms w' = slept_ms w + 100 * n
               \<and> spinner_steps w' = spinner_steps w + n
               \<and> (\<forall>m. r \<noteq> Inl (ResourceLockedException m))
               \<and> (r = Inr () \<longrightarrow>
                    create_error (attempt_fs others (fs w) n) (lock_directory self) = None
                    \<and> fs w' = (attempt_fs others (fs w) n)
                         \<lparr>nodes := (nodes (attempt_fs others (fs w) n))
                                     (lock_directory self \<mapsto> Directory [])\<rparr>)))"
proof (intro conjI allI impI)
  assume "\<forall>k. nodes (attempt_fs others (fs w) k) (lock_directory self) \<noteq> None"
  with assms show "atomic_lock_enter others self w = None"
    by (rule enter_forever)
next
  fix n
  let ?d = "lock_directory self"
  let ?f = "attempt_fs others (fs w) n"
  let ?w = "w\<lparr>fs := ?f, slept_ms := slept_ms w + 100 * n,
               spinner_steps := spinner_steps w + n\<rparr>"
  assume a: "(\<forall>k<n. nodes (attempt_fs others (fs w) k) ?d \<noteq> None)
      \<and> nodes ?f ?d = None \<and> create_error ?f ?d = None"
  then have "atomic_lock_enter others self w = atomic_lock_enter (\<lambda>k. others (n + k)) self ?w"
    using enter_waits [OF assms, of n others w] by blast
  also from a have "\<dots> = Some (Inr (), ?w\<lparr>fs := (fs ?w)\<lparr>nodes := (nodes (fs ?w))(?d \<mapsto> Directory [])\<rparr>\<rparr>)"
    using enter_free [of ?w self "\<lambda>k. others (n + k)"] by simp
  finally show "atomic_lock_enter others self w =
      Some (Inr (), w\<lparr>fs := ?f\<lparr>nodes := (nodes ?f)(?d \<mapsto> Directory [])\<rparr>,
                      slept_ms := slept_ms w + 100 * n,
                      spinner_steps := spinner_steps w + n\<rparr>)"
    by simp
next
  fix n x
  let ?d = "lock_directory self"
  let ?f = "attempt_fs others (fs w) n"
  let ?w = "w\<lparr>fs := ?f, slept_ms := slept_ms w + 100 * n,
               spinner_steps := spinner_steps w + n\<rparr>"
  assume a: "(\<forall>k<n. nodes (attempt_fs others (fs w) k) ?d \<noteq> None)
      \<and> nodes ?f ?d = None \<and> create_error ?f ?d = Some x"
  then have "atomic_lock_enter others self w = atomic_lock_enter (\<lambda>k. others (n + k)) self ?w"
    using enter_waits [OF assms, of n others w] by blast
  also from a have "\<dots> = Some (Inl (OSError (errno_of_fault x)), ?w)"
    using enter_refused [of ?w self x "\<lambda>k. others (n + k)"] by simp
  finally show "atomic_lock_enter others self w = Some (Inl (OSError (errno_of_fault x)), ?w)" .
next
  fix r w'
  assume returned: "atomic_lock_enter others self w = Some (r, w')"
  let ?d = "lock_directory self"
  from enter_returns_free_attempt [OF returned] assms
  obtain k where "nodes (attempt_fs others (fs w) k) ?d = None"
    by blast
  then obtain n where free: "nodes (attempt_fs others (fs w) n) ?d = None"
    and taken: "\<forall>j<n. nodes (attempt_fs others (fs w) j) ?d \<noteq> None"
    by (rule first_free_attempt)
  let ?f = "attempt_fs others (fs w) n"
  let ?w = "w\<lparr>fs := ?f, slept_ms := slept_ms w + 100 * n,
               spinner_steps := spinner_steps w + n\<rparr>"
  from enter_waits [OF assms taken] returned
  have at_n: "atomic_lock_enter (\<lambda>k. others (n + k)) self ?w = Some (r, w')"
    by simp
  have "slept_ms w' = slept_ms w + 100 * n \<and> spinner_steps w' = spinner_steps w + n
        \<and> (\<forall>m. r \<noteq> Inl (ResourceLockedException m))
        \<and> (r = Inr () \<longrightarrow> create_error ?f ?d = None
              \<and> fs w' = ?f\<lparr>nodes := (nodes ?f)(?d \<mapsto> Directory [])\<rparr>)"
  proof (cases "create_error ?f ?d")
    case None
    with free at_n show ?thesis
      using enter_free [of ?w self "\<lambda>k. others (n + k)"] by auto
  next
    case (Some x)
    with free at_n show ?thesis
      using enter_refused [of ?w self x "\<lambda>k. others (n + k)"] by auto
  qed
  with free taken
  show "\<exists>n. (\<forall>k<n. nodes (attempt_fs others (fs w) k) ?d \<noteq> None)
               \<and> nodes (attempt_fs others (fs w) n) ?d = None
               \<and> slept_ms w' = slept_ms w + 100 * n
               \<and> spinner_steps w' = spinner_steps w + n
               \<and> (\<forall>m. r \<noteq> Inl (ResourceLockedException m))
               \<and> (r = Inr () \<longrightarrow>
                    create_error (attempt_fs others (fs w) n) ?d = None
                    \<and> fs w' = (attempt_fs others (fs w) n)
                         \<lparr>nodes := (nodes (attempt_fs others (fs w) n))(?d \<mapsto> Directory [])\<rparr>)"
    by blast
qed

theorem blocking_enter_waits_for_creation_witness:
  "wait (repo_lock True)
   \<and> atomic_lock_enter (\<lambda>k. id) (repo_lock True)
        (start (put ''/tmp/0a02.lock'' (Directory []) free_fs)) = None
   \<and> nodes (attempt_fs (\<lambda>k. if k = 1 then remove ''/tmp/0a02.lock'' else id)
               (put ''/tmp/0a02.lock'' (Directory []) free_fs) 0) ''/tmp/0a02.lock''
       = Some (Directory [])
   \<and> nodes (attempt_fs (\<lambda>k. if k = 1 then remove ''/tmp/0a02.lock'' else id)
               (put ''/tmp/0a02.lock'' (Directory []) free_fs) 1) ''/tmp/0a02.lock''
       = Some (Directory [])
   \<and> nodes (attempt_fs (\<lambda>k. if k = 1 then remove ''/tmp/0a02.lock'' else id)
               (put ''/tmp/0a02.lock'' (Directory []) free_fs) 2) ''/tmp/0a02.lock''
       = None
   \<and> atomic_lock_enter (\<lambda>k. if k = 1 then remove ''/tmp/0a02.lock'' else id) (repo_lock True)
        (start (put ''/tmp/0a02.lock'' (Directory []) free_fs))
       = Some (Inr (), \<lparr>fs = put ''/tmp/0a02.lock'' (Directory []) free_fs,
                        slept_ms = 200, spinner_steps = 2\<rparr>)
   \<and> atomic_lock_enter
        (\<lambda>k f. refuse ''/tmp/0a02.lock'' NoSpaceLeft (remove ''/tmp/0a02.lock'' f))
        (repo_lock True) (start (put ''/tmp/0a02.lock'' (Directory []) free_fs))
       = Some (Inl (OSError ENOSPC),
               \<lparr>fs = refuse ''/tmp/0a02.lock'' NoSpaceLeft free_fs,
                slept_ms = 100, spinner_steps = 1\<rparr>)"
proof -
  let ?d = "''/tmp/0a02.lock''"
  let ?held = "put ?d (Directory []) free_fs"
  let ?others = "\<lambda>k::nat. if k = 1 then remove ?d else id"
  let ?full = "\<lambda>(k::nat) f. refuse ?d NoSpaceLeft (remove ?d f)"
  let ?lock = "repo_lock True"
  have waiting: "wait ?lock"
    by (simp add: repo_lock_simps)
  note claim = blocking_enter_waits_for_creation [OF waiting]
  have "\<forall>k. nodes (attempt_fs (\<lambda>k. id) (fs (start ?held)) k) (lock_directory ?lock) \<noteq> None"
    by (simp add: attempt_fs_idle repo_lock_simps start_def put_def)
  with claim [of "\<lambda>k. id" "start ?held"]
  have forever: "atomic_lock_enter (\<lambda>k. id) ?lock (start ?held) = None"
    by blast
  have at0: "nodes (attempt_fs ?others ?held 0) ?d = Some (Directory [])"
    and at1: "nodes (attempt_fs ?others ?held 1) ?d = Some (Directory [])"
    by (simp_all add: put_def)
  have at2: "nodes (attempt_fs ?others ?held 2) ?d = None"
    and allowed: "create_error (attempt_fs ?others ?held 2) ?d = None"
    by (simp_all add: numeral_2_eq_2 put_def remove_def free_fs_def)
  have before: "\<forall>k<2. nodes (attempt_fs ?others (fs (start ?held)) k) (lock_directory ?lock)
                  \<noteq> None"
  proof (intro allI impI)
    fix k :: nat
    assume "k < 2"
    then consider "k = 0" | "k = 1"
      by linarith
    then show "nodes (attempt_fs ?others (fs (start ?held)) k) (lock_directory ?lock) \<noteq> None"
    proof cases
      case 1
      with at0 show ?thesis
        by (simp add: repo_lock_simps start_def)
    next
      case 2
      with at1 show ?thesis
        by (simp add: repo_lock_simps start_def)
    qed
  qed
  from at2 allowed
  have "nodes (attempt_fs ?others (fs (start ?held)) 2) (lock_directory ?lock) = None"
    and "create_error (attempt_fs ?others (fs (start ?held)) 2) (lock_directory ?lock) = None"
    by (simp_all add: repo_lock_simps start_def)
  with before claim [of ?others "start ?held"]
  have "atomic_lock_enter ?others ?lock (start ?held) =
      Some (Inr (),
            (start ?held)\<lparr>fs := (attempt_fs ?others (fs (start ?held)) 2)
                      \<lparr>nodes := (nodes (attempt_fs ?others (fs (start ?held)) 2))
                                  (lock_directory ?lock \<mapsto> Directory [])\<rparr>,
              slept_ms := slept_ms (start ?held) + 100 * 2,
              spinner_steps := spinner_steps (start ?held) + 2\<rparr>)"
    by blast
  then have returned: "atomic_lock_enter ?others ?lock (start ?held) =
      Some (Inr (), \<lparr>fs = ?held, slept_ms = 200, spinner_steps = 2\<rparr>)"
    by (simp add: numeral_2_eq_2 repo_lock_simps start_def put_def remove_def free_fs_def)
  have "\<forall>k<1. nodes (attempt_fs ?full (fs (start ?held)) k) (lock_directory ?lock) \<noteq> None"
    and "nodes (attempt_fs ?full (fs (start ?held)) 1) (lock_directory ?lock) = None"
    and "create_error (attempt_fs ?full (fs (start ?held)) 1) (lock_directory ?lock)
           = Some NoSpaceLeft"
    by (simp_all add: repo_lock_simps start_def put_def remove_def refuse_def free_fs_def)
  with claim [of ?full "start ?held"]
  have "atomic_lock_enter ?full ?lock (start ?held) =
      Some (Inl (OSError (errno_of_fault NoSpaceLeft)),
            (start ?held)\<lparr>fs := attempt_fs ?full (fs (start ?held)) 1,
              slept_ms := slept_ms (start ?held) + 100 * 1,
              spinner_steps := spinner_steps (start ?held) + 1\<rparr>)"
    by blast
  then have refused: "atomic_lock_enter ?full ?lock (start ?held) =
      Some (Inl (OSError ENOSPC),
            \<lparr>fs = refuse ?d NoSpaceLeft free_fs, slept_ms = 100, spinner_steps = 1\<rparr>)"
    by (simp add: start_def put_def remove_def refuse_def free_fs_def)
  from waiting forever at0 at1 at2 returned refused show ?thesis
    by blast
qed

section \<open>A file in the marker's place\<close>

text \<open>
  Claim C10. With a file that is not a directory at the marker path, \<^verbatim>\<open>__enter__\<close> does
  what it does on a held lock: without waiting it raises \<^verbatim>\<open>ResourceLockedException\<close> and
  changes nothing; waiting, it sleeps and tries again, for ever if the file stays.
  \<^verbatim>\<open>__exit__\<close> returns normally and leaves the world as it is. In any world at all,
  \<^verbatim>\<open>__exit__\<close> changes something only when a directory is at the marker path.
\<close>

theorem file_at_marker_is_contention:
  assumes "nodes (fs w) (lock_directory self) = Some NonDirectory"
  shows "(\<not> wait self \<longrightarrow>
            atomic_lock_enter others self w =
              Some (Inl (ResourceLockedException (locked_message (pathname self))), w))
       \<and> (wait self \<longrightarrow>
            atomic_lock_enter others self w =
              atomic_lock_enter (\<lambda>k. others (Suc k)) self
                (w\<lparr>fs := others 0 (fs w), slept_ms := slept_ms w + 100,
                   spinner_steps := Suc (spinner_steps w)\<rparr>))
       \<and> (wait self
            \<and> (\<forall>k. nodes (attempt_fs others (fs w) k) (lock_directory self) = Some NonDirectory)
          \<longrightarrow> atomic_lock_enter others self w = None)
       \<and> atomic_lock_exit self w = (Inr (), w)
       \<and> (\<forall>v. snd (atomic_lock_exit self v) \<noteq> v \<longrightarrow>
            nodes (fs v) (lock_directory self) = Some (Directory []))"
proof (intro conjI allI impI)
  assume "\<not> wait self"
  then show "atomic_lock_enter others self w =
              Some (Inl (ResourceLockedException (locked_message (pathname self))), w)"
    using assms by (rule enter_taken_nowait)
next
  assume "wait self"
  then show "atomic_lock_enter others self w =
              atomic_lock_enter (\<lambda>k. others (Suc k)) self
                (w\<lparr>fs := others 0 (fs w), slept_ms := slept_ms w + 100,
                   spinner_steps := Suc (spinner_steps w)\<rparr>)"
    using assms by (rule enter_taken_wait)
next
  assume a: "wait self
      \<and> (\<forall>k. nodes (attempt_fs others (fs w) k) (lock_directory self) = Some NonDirectory)"
  then have "\<forall>k. nodes (attempt_fs others (fs w) k) (lock_directory self) \<noteq> None"
    by simp
  with a show "atomic_lock_enter others self w = None"
    using enter_forever by blast
next
  from assms show "atomic_lock_exit self w = (Inr (), w)"
    by (simp add: atomic_lock_exit_def os_path_isdir_def)
next
  fix v
  assume "snd (atomic_lock_exit self v) \<noteq> v"
  then show "nodes (fs v) (lock_directory self) = Some (Directory [])"
    by (auto simp: atomic_lock_exit_def os_path_isdir_def os_rmdir_def
             split: option.splits node.splits if_splits)
qed

theorem file_at_marker_is_contention_witness:
  "nodes (fs (start (put ''/tmp/0a02.lock'' NonDirectory free_fs)))
      (lock_directory (repo_lock False)) = Some NonDirectory
   \<and> atomic_lock_enter (\<lambda>k. id) (repo_lock False)
        (start (put ''/tmp/0a02.lock'' NonDirectory free_fs))
       = Some (Inl (ResourceLockedException ''Failed to lock /data/repo for exclusive access!''),
               start (put ''/tmp/0a02.lock'' NonDirectory free_fs))
   \<and> atomic_lock_enter (\<lambda>k. id) (repo_lock True)
        (start (put ''/tmp/0a02.lock'' NonDirectory free_fs)) = None
   \<and> atomic_lock_exit (repo_lock True) (start (put ''/tmp/0a02.lock'' NonDirectory free_fs))
       = (Inr (), start (put ''/tmp/0a02.lock'' NonDirectory free_fs))
   \<and> snd (atomic_lock_exit (repo_lock True)
             (start (put ''/tmp/0a02.lock'' (Directory []) free_fs)))
       \<noteq> start (put ''/tmp/0a02.lock'' (Directory []) free_fs)
   \<and> nodes (fs (start (put ''/tmp/0a02.lock'' (Directory []) free_fs)))
        (lock_directory (repo_lock True)) = Some (Directory [])"
proof -
  let ?d = "''/tmp/0a02.lock''"
  let ?w = "start (put ?d NonDirectory free_fs)"
  let ?v = "start (put ?d (Directory []) free_fs)"
  have regular: "nodes (fs ?w) (lock_directory (repo_lock b)) = Some NonDirectory" for b
    by (simp add: repo_lock_simps start_def put_def)
  from file_at_marker_is_contention [OF regular, of False "\<lambda>k. id"]
  have nowait: "atomic_lock_enter (\<lambda>k. id) (repo_lock False) ?w
       = Some (Inl (ResourceLockedException ''Failed to lock /data/repo for exclusive access!''), ?w)"
    and "atomic_lock_exit (repo_lock False) ?w = (Inr (), ?w)"
    by (simp_all add: repo_lock_simps locked_message_def)
  have waiting: "wait (repo_lock True)"
    by (simp add: repo_lock_simps)
  have stays: "\<forall>k. nodes (attempt_fs (\<lambda>k. id) (fs ?w) k) (lock_directory (repo_lock True))
                 = Some NonDirectory"
    by (simp add: attempt_fs_idle regular)
  from file_at_marker_is_contention [OF regular, of True "\<lambda>k. id"] waiting stays
  have forever: "atomic_lock_enter (\<lambda>k. id) (repo_lock True) ?w = None"
    and untouched: "atomic_lock_exit (repo_lock True) ?w = (Inr (), ?w)"
    by blast+
  have "nodes (fs (snd (atomic_lock_exit (repo_lock True) ?v))) ?d = None"
    by (simp add: atomic_lock_exit_def os_path_isdir_def os_rmdir_def repo_lock_simps
          start_def put_def)
  moreover have "nodes (fs ?v) ?d = Some (Directory [])"
    by (simp add: start_def put_def)
  ultimately have changed: "snd (atomic_lock_exit (repo_lock True) ?v) \<noteq> ?v"
    by auto
  with file_at_marker_is_contention [OF regular, of True "\<lambda>k. id"]
  have "nodes (fs ?v) (lock_directory (repo_lock True)) = Some (Directory [])"
    by blast
  with regular nowait forever untouched changed show ?thesis
    by simp
qed

section \<open>The marker path\<close>

lemma hexdigit_not_slash: "hexdigit n \<noteq> CHR ''/''"
proof -
  have "''0123456789abcdef'' ! (n mod 16) \<in> set ''0123456789abcdef''"
    by (rule nth_mem) simp
  then show ?thesis
    unfolding hexdigit_def by auto
qed

lemma lock_name_relative:
  "hexdigest bs @ ''.lock'' \<noteq> [] \<and> hd (hexdigest bs @ ''.lock'') \<noteq> CHR ''/''"
  by (cases bs) (simp_all add: hexdigest_def hexdigit_not_slash)

lemma join_relative:
  assumes "b \<noteq> []" and "hd b \<noteq> CHR ''/''"
  shows "os_path_join a b = a @ (if a = [] \<or> last a = CHR ''/'' then [] else ''/'') @ b"
  using assms by (simp add: os_path_join_def)

lemma lock_directory_under_tempdir:
  assumes "atomic_lock_init P f cwd path w = Inr h"
  shows "lock_directory h =
     tempfile_gettempdir P
       @ (if tempfile_gettempdir P = [] \<or> last (tempfile_gettempdir P) = CHR ''/''
          then [] else ''/'')
       @ hexdigest (hashlib_sha1 P (bytes_of (pathname h))) @ ''.lock''"
  using lock_name_relative [of "hashlib_sha1 P (bytes_of (pathname h))"]
  by (simp add: init_made(5) [OF assms] join_relative)

text \<open>
  Claim C2. The marker path of a handle that was made is the temporary directory of the
  platform joined with the hexadecimal SHA1 digest of the canonical path and \<^verbatim>\<open>.lock\<close>; the
  digest never starts with a slash, so the join keeps the temporary directory in front.
  A second construction whose path has the same canonical form makes a handle too, with
  the same marker path, whatever filesystem state, working directory and \<open>wait\<close> flag it is
  made with.
\<close>

theorem lock_directory_deterministic:
  assumes "atomic_lock_init P f cwd path w = Inr h"
  shows "os_path_realpath P f cwd path = Inr (pathname h)
   \<and> encode_utf8 (pathname h) = Inr (bytes_of (pathname h))
   \<and> lock_directory h =
      os_path_join (tempfile_gettempdir P)
        (hexdigest (hashlib_sha1 P (bytes_of (pathname h))) @ ''.lock'')
   \<and> lock_directory h =
        tempfile_gettempdir P
          @ (if tempfile_gettempdir P = [] \<or> last (tempfile_gettempdir P) = CHR ''/''
             then [] else ''/'')
          @ hexdigest (hashlib_sha1 P (bytes_of (pathname h)))
          @ ''.lock''
   \<and> (os_path_realpath P f' cwd' path' = os_path_realpath P f cwd path \<longrightarrow>
        map_sum id lock_directory (atomic_lock_init P f' cwd' path' w')
          = Inr (lock_directory h))"
proof (intro conjI impI)
  show "os_path_realpath P f cwd path = Inr (pathname h)"
    by (rule init_made(1) [OF assms])
next
  show "encode_utf8 (pathname h) = Inr (bytes_of (pathname h))"
    by (rule init_made(3) [OF assms])
next
  show "lock_directory h =
      os_path_join (tempfile_gettempdir P)
        (hexdigest (hashlib_sha1 P (bytes_of (pathname h))) @ ''.lock'')"
    by (rule init_made(5) [OF assms])
next
  show "lock_directory h =
        tempfile_gettempdir P
          @ (if tempfile_gettempdir P = [] \<or> last (tempfile_gettempdir P) = CHR ''/''
             then [] else ''/'')
          @ hexdigest (hashlib_sha1 P (bytes_of (pathname h)))
          @ ''.lock''"
    by (rule lock_directory_under_tempdir [OF assms])
next
  assume "os_path_realpath P f' cwd' path' = os_path_realpath P f cwd path"
  with init_made(1) [OF assms]
  have "os_path_realpath P f' cwd' path' = Inr (pathname h)"
    by simp
  then show "map_sum id lock_directory (atomic_lock_init P f' cwd' path' w')
          = Inr (lock_directory h)"
    by (simp add: init_of_realpath init_made(4,5) [OF assms])
qed

theorem lock_directory_deterministic_witness:
  "atomic_lock_init example_platform free_fs ''/'' ''/data/repo'' True = Inr (repo_lock True)
   \<and> os_path_realpath example_platform (put ''/data'' (Directory [''repo'']) free_fs)
        ''/data'' ''repo''
     = os_path_realpath example_platform free_fs ''/'' ''/data/repo''
   \<and> map_sum id lock_directory
        (atomic_lock_init example_platform (put ''/data'' (Directory [''repo'']) free_fs)
           ''/data'' ''repo'' False)
       = Inr ''/tmp/0a02.lock''
   \<and> lock_directory (repo_lock True) = ''/tmp/'' @ hexdigest [0x0a, 0x02] @ ''.lock''"
proof -
  let ?f = "put ''/data'' (Directory [''repo'']) free_fs"
  have made: "atomic_lock_init example_platform free_fs ''/'' ''/data/repo'' True
                = Inr (repo_lock True)"
    by (rule repo_lock_made)
  have same: "os_path_realpath example_platform ?f ''/data'' ''repo''
     = os_path_realpath example_platform free_fs ''/'' ''/data/repo''"
    by (simp add: example_platform_def os_path_join_def os_path_isdir_def put_def)
  with lock_directory_deterministic [OF made, of ?f "''/data''" "''repo''" False]
  have "map_sum id lock_directory (atomic_lock_init example_platform ?f ''/data'' ''repo'' False)
          = Inr (lock_directory (repo_lock True))"
    by blast
  moreover have "lock_directory (repo_lock True) = ''/tmp/'' @ hexdigest [0x0a, 0x02] @ ''.lock''"
    by (simp add: repo_lock_simps hexdigest_def hexdigit_def)
  ultimately show ?thesis
    using made same by (simp add: repo_lock_simps)
qed

lemma nonblocking_enter_result:
  assumes "\<not> wait h"
  shows "map_option fst (atomic_lock_enter others h w) =
           Some (case nodes (fs w) (lock_directory h) of
                   Some n \<Rightarrow> Inl (ResourceLockedException (locked_message (pathname h)))
                 | None \<Rightarrow>
                     (case create_error (fs w) (lock_directory h) of
                        Some x \<Rightarrow> Inl (OSError (errno_of_fault x))
                      | None \<Rightarrow> Inr ()))"
  using assms
  by (auto simp: enter_taken_nowait enter_refused enter_free split: option.splits)

lemma nonblocking_enter_elsewhere:
  assumes "\<not> wait h" and "atomic_lock_enter others h w = Some (r, w1)"
    and "d \<noteq> lock_directory h"
  shows "nodes (fs w1) d = nodes (fs w) d \<and> create_error (fs w1) d = create_error (fs w) d"
proof (cases "nodes (fs w) (lock_directory h)")
  case (Some n)
  with assms show ?thesis
    by (simp add: enter_taken_nowait)
next
  case None
  with assms show ?thesis
    by (cases "create_error (fs w) (lock_directory h)")
       (auto simp: enter_refused enter_free)
qed

lemma valid_utf8_mirror: "valid_utf8 (bytes_of ''/data/mirror'')"
  by (simp add: bytes_of_def)

text \<open>
  Claim C9. Two handles whose canonical paths are distinct and have distinct fingerprints
  have distinct marker paths, and a lock on the one is no contention for the other: what
  entering the second without waiting returns is the same after the first has entered as
  before.
\<close>

theorem distinct_fingerprints_distinct_markers:
  assumes "atomic_lock_init P f cwd path b = Inr h"
    and "atomic_lock_init P f' cwd' path' b' = Inr h'"
    and "pathname h \<noteq> pathname h'"
    and "sha1 P (pathname h) \<noteq> sha1 P (pathname h')"
  shows "lock_directory h \<noteq> lock_directory h'
       \<and> (\<forall>g g' others others' w r w1.
            atomic_lock_init P f cwd path False = Inr g
            \<and> atomic_lock_init P f' cwd' path' False = Inr g'
            \<and> atomic_lock_enter others g w = Some (r, w1) \<longrightarrow>
              map_option fst (atomic_lock_enter others' g' w1)
                = map_option fst (atomic_lock_enter others' g' w))"
proof -
  from assms(4) init_made(4) [OF assms(1)] init_made(4) [OF assms(2)]
  have prints: "hexdigest (hashlib_sha1 P (bytes_of (pathname h)))
                  \<noteq> hexdigest (hashlib_sha1 P (bytes_of (pathname h')))"
    by simp
  then have differ: "lock_directory h \<noteq> lock_directory h'"
    by (simp add: lock_directory_under_tempdir [OF assms(1)]
          lock_directory_under_tempdir [OF assms(2)])
  have "map_option fst (atomic_lock_enter others' g' w1)
          = map_option fst (atomic_lock_enter others' g' w)"
    if made: "atomic_lock_init P f cwd path False = Inr g"
      and made': "atomic_lock_init P f' cwd' path' False = Inr g'"
      and entered: "atomic_lock_enter others g w = Some (r, w1)"
    for g g' others others' w r w1
  proof -
    from init_made(1) [OF made] init_made(1) [OF assms(1)]
    have "pathname g = pathname h"
      by simp
    moreover from init_made(1) [OF made'] init_made(1) [OF assms(2)]
    have "pathname g' = pathname h'"
      by simp
    ultimately have "lock_directory g' \<noteq> lock_directory g"
      using prints
      by (simp add: lock_directory_under_tempdir [OF made]
            lock_directory_under_tempdir [OF made'])
    moreover have "\<not> wait g" and nowait: "\<not> wait g'"
      using init_made(2) [OF made] init_made(2) [OF made'] by simp_all
    ultimately
    have "nodes (fs w1) (lock_directory g') = nodes (fs w) (lock_directory g')"
      and "create_error (fs w1) (lock_directory g') = create_error (fs w) (lock_directory g')"
      using nonblocking_enter_elsewhere [OF _ entered, of "lock_directory g'"] by blast+
    then show ?thesis
      by (simp add: nonblocking_enter_result [OF nowait] split: option.splits)
  qed
  with differ show ?thesis
    by blast
qed

theorem distinct_fingerprints_distinct_markers_witness:
  "atomic_lock_init example_platform free_fs ''/'' ''/data/repo'' False = Inr (repo_lock False)
   \<and> atomic_lock_init example_platform free_fs ''/'' ''/data/mirror'' False
       = Inr \<lparr>wait = False, pathname = ''/data/mirror'', lock_directory = ''/tmp/0c02.lock''\<rparr>
   \<and> sha1 example_platform ''/data/repo'' = Inr ''0a02''
   \<and> sha1 example_platform ''/data/mirror'' = Inr ''0c02''
   \<and> atomic_lock_enter (\<lambda>k. id) (repo_lock False) (start free_fs)
       = Some (Inr (), start (put ''/tmp/0a02.lock'' (Directory []) free_fs))
   \<and> map_option fst
        (atomic_lock_enter (\<lambda>k. id)
           \<lparr>wait = False, pathname = ''/data/mirror'', lock_directory = ''/tmp/0c02.lock''\<rparr>
           (start (put ''/tmp/0a02.lock'' (Directory []) free_fs)))
       = Some (Inr ())"
proof -
  let ?P = example_platform
  let ?h' = "\<lparr>wait = False, pathname = ''/data/mirror'', lock_directory = ''/tmp/0c02.lock''\<rparr>"
  let ?w1 = "start (put ''/tmp/0a02.lock'' (Directory []) free_fs)"
  have made: "atomic_lock_init ?P free_fs ''/'' ''/data/repo'' False = Inr (repo_lock False)"
    by (rule repo_lock_made)
  have print: "sha1 ?P ''/data/repo'' = Inr ''0a02''"
    using valid_utf8_repo
    by (simp add: sha1_def encode_utf8_def example_platform_def)
       (simp add: bytes_of_def hexdigest_def hexdigit_def short_digest_def)
  have print': "sha1 ?P ''/data/mirror'' = Inr ''0c02''"
    using valid_utf8_mirror
    by (simp add: sha1_def encode_utf8_def example_platform_def)
       (simp add: bytes_of_def hexdigest_def hexdigit_def short_digest_def)
  have made': "atomic_lock_init ?P free_fs ''/'' ''/data/mirror'' False = Inr ?h'"
    using print' by (simp add: atomic_lock_init_def example_platform_def os_path_join_def)
  have paths: "pathname (repo_lock False) \<noteq> pathname ?h'"
    by (simp add: repo_lock_simps)
  have prints: "sha1 ?P (pathname (repo_lock False)) \<noteq> sha1 ?P (pathname ?h')"
    using print print' by (simp add: repo_lock_simps)
  note markers = distinct_fingerprints_distinct_markers [OF made made' paths prints]
  have first: "atomic_lock_enter (\<lambda>k. id) (repo_lock False) (start free_fs) = Some (Inr (), ?w1)"
    using enter_free [of "start free_fs" "repo_lock False" "\<lambda>k. id"]
    by (simp add: repo_lock_simps start_def put_def free_fs_def)
  have "map_option fst (atomic_lock_enter (\<lambda>k. id) ?h' (start free_fs)) = Some (Inr ())"
    by (subst nonblocking_enter_result) (simp_all add: start_def free_fs_def)
  with markers made made' first
  have "map_option fst (atomic_lock_enter (\<lambda>k. id) ?h' ?w1) = Some (Inr ())"
    by metis
  with made made' print print' first show ?thesis
    by blast
qed

section \<open>Construction\<close>





end
